theory Spec2Isabelle
  imports Complex_Main "HOL-Library.Sublist" "HOL-Library.Log_Nat"
begin

section \<open>Data model (src/types.ts)\<close>

text \<open>
  JavaScript numbers that carry geometry (bounding boxes, zoom scale, pixel offsets) are
  values of \<^typ>\<open>real\<close>. The zoom scale is computed as the code computes it, in IEEE 754
  doubles: its sums and differences are rounded (section ``JavaScript numbers''). The
  comparisons, \<open>Math.min\<close> and \<open>Math.max\<close> are exact on doubles. The pointer differences
  of a pan and the tenths of a bounding box are left unrounded: the first are exact in
  doubles for the integer pixel coordinates that mouse events carry, and no branch reads
  the second. Counters that the code fills with \<open>parseInt\<close> or with list positions are
  \<^typ>\<open>int\<close> and \<^typ>\<open>nat\<close>. A value that may be \<open>null\<close> or \<open>undefined\<close> is an
  \<^typ>\<open>'a option\<close>. The field \<open>id\<close> of the source is \<open>id'\<close> and \<open>text\<close> is
  \<open>text'\<close> here, since both names are taken.
\<close>

record boundingBox =
  ymin :: real
  xmin :: real
  ymax :: real
  xmax :: real

record DetectedText =
  id' :: string
  text' :: string
  isEdited :: "bool option"
  boundingBox :: boundingBox
  confidence :: real

record ProcessingState =
  isAnalyzing :: bool
  isEditing :: bool
  error :: "string option"

record AppState =
  originalImage :: "string option"
  history :: "string list"
  historyIndex :: int
  detectedTexts :: "DetectedText list"
  selectedTextId :: "string option"
  processing :: ProcessingState

text \<open>Truthiness of a \<open>string | null\<close> value: \<open>null\<close> and the empty string are falsy.\<close>

fun truthy :: "string option \<Rightarrow> bool" where
  "truthy None = False"
| "truthy (Some s) = (s \<noteq> [])"

text \<open>\<open>a || b\<close> on \<open>string | null\<close> operands.\<close>

definition js_or :: "string option \<Rightarrow> string option \<Rightarrow> string option" where
  "js_or a b = (if truthy a then a else b)"

text \<open>
  \<open>xs.slice(0, end)\<close>: a negative \<open>end\<close> counts from the end of the array, and the
  result never reaches past either end.
\<close>

definition slice0 :: "'a list \<Rightarrow> int \<Rightarrow> 'a list" where
  "slice0 xs e =
     (let n = int (length xs);
          k = (if e < 0 then max (n + e) 0 else min e n)
      in take (nat k) xs)"

text \<open>\<open>xs[i]\<close>: \<open>undefined\<close> outside the array.\<close>

definition js_index :: "'a list \<Rightarrow> int \<Rightarrow> 'a option" where
  "js_index xs i = (if 0 \<le> i \<and> i < int (length xs) then Some (xs ! nat i) else None)"

text \<open>\<open>xs.find(p)\<close>: the first element that satisfies \<open>p\<close>, or \<open>undefined\<close>.\<close>

fun js_find :: "('a \<Rightarrow> bool) \<Rightarrow> 'a list \<Rightarrow> 'a option" where
  "js_find p [] = None"
| "js_find p (x # xs) = (if p x then Some x else js_find p xs)"

section \<open>JavaScript numbers\<close>

text \<open>
  A double has 53 significant bits. \<open>binade x\<close> is the exponent \<open>e\<close> with
  \<open>2^e \<le> |x| < 2^(e+1)\<close>, \<open>ulp x\<close> the spacing of the doubles around \<open>x\<close> (for the
  subnormal range the spacing of the smallest binade), and \<open>toDouble x\<close> the double
  nearest to \<open>x\<close>, the one with the even last bit when two are equally near. It is what
  a decimal literal denotes and what \<open>+\<close> and \<open>-\<close> return for the exact sum and
  difference of two doubles. Results of magnitude \<open>2^1024\<close>, which JavaScript turns into
  \<open>Infinity\<close>, stay finite here; adding 0.15 or 0.3 to a double never gives one.
\<close>

definition pow2 :: "int \<Rightarrow> real" where
  "pow2 e = (if 0 \<le> e then 2 ^ nat e else 1 / 2 ^ nat (- e))"

definition roundEven :: "real \<Rightarrow> int" where
  "roundEven y =
     (let f = \<lfloor>y\<rfloor>; r = y - of_int f
      in if r < 1 / 2 then f else if 1 / 2 < r then f + 1
         else if even f then f else f + 1)"

definition binade :: "real \<Rightarrow> int" where
  "binade x =
     (if 1 \<le> \<bar>x\<bar> then bitlen \<lfloor>\<bar>x\<bar>\<rfloor> - 1 else - bitlen (\<lceil>1 / \<bar>x\<bar>\<rceil> - 1))"

definition ulp :: "real \<Rightarrow> real" where
  "ulp x = pow2 (max (binade x) (- 1022) - 52)"

definition toDouble :: "real \<Rightarrow> real" where
  "toDouble x = (if x = 0 then 0 else of_int (roundEven (x / ulp x)) * ulp x)"

text \<open>\<open>a + b\<close> and \<open>a - b\<close> on doubles.\<close>

definition js_add :: "real \<Rightarrow> real \<Rightarrow> real" where
  "js_add a b = toDouble (a + b)"

definition js_sub :: "real \<Rightarrow> real \<Rightarrow> real" where
  "js_sub a b = toDouble (a - b)"

section \<open>The application state (src/App.tsx)\<close>

text \<open>The state \<open>useState\<close> starts with, which \<open>handleReset\<close> restores.\<close>

definition initialState :: AppState where
  "initialState =
     \<lparr> originalImage = None, history = [], historyIndex = -1, detectedTexts = [],
       selectedTextId = None,
       processing = \<lparr> isAnalyzing = False, isEditing = False, error = None \<rparr> \<rparr>"

definition handleReset :: "AppState \<Rightarrow> AppState" where
  "handleReset s = initialState"

text \<open>\<open>currentImage\<close>, line 26: the snapshot under the cursor, or the baseline.\<close>

definition currentImage :: "AppState \<Rightarrow> string option" where
  "currentImage s =
     (if historyIndex s \<ge> 0 then js_index (history s) (historyIndex s)
      else originalImage s)"

text \<open>
  Each handler runs on the state of the latest render, so the state its guard reads
  and the \<open>prev\<close> its updater receives are the same value.
\<close>

definition handleUndo :: "AppState \<Rightarrow> AppState" where
  "handleUndo s =
     (if historyIndex s \<ge> 0 then s\<lparr> historyIndex := historyIndex s - 1 \<rparr> else s)"

definition handleRedo :: "AppState \<Rightarrow> AppState" where
  "handleRedo s =
     (if historyIndex s < int (length (history s)) - 1
      then s\<lparr> historyIndex := historyIndex s + 1 \<rparr> else s)"

text \<open>
  The three state updaters of \<open>handleEditText\<close>, each a function of \<open>prev\<close>:
  the one before the call (lines 69-72), the one that commits a result (lines 79-90),
  and the one of the \<open>catch\<close> block (lines 95-102).
\<close>

definition editStarted :: "AppState \<Rightarrow> AppState" where
  "editStarted prev =
     prev\<lparr> processing := (processing prev)\<lparr> isEditing := True, error := None \<rparr> \<rparr>"

text \<open>Line 87: the region update mapped over the detection set.\<close>

definition markEdited :: "string \<Rightarrow> string \<Rightarrow> DetectedText list \<Rightarrow> DetectedText list" where
  "markEdited i newText ts =
     map (\<lambda>t. if id' t = i then t\<lparr> text' := newText, isEdited := Some True \<rparr> else t) ts"

definition editCommitted :: "string \<Rightarrow> string \<Rightarrow> string \<Rightarrow> AppState \<Rightarrow> AppState" where
  "editCommitted i newText result prev =
     (let newHistory = slice0 (history prev) (historyIndex prev + 1) @ [result]
      in prev\<lparr> history := newHistory,
               historyIndex := int (length newHistory) - 1,
               detectedTexts := markEdited i newText (detectedTexts prev),
               processing := (processing prev)\<lparr> isEditing := False \<rparr> \<rparr>)"

section \<open>The remote service (src/services/geminiService.ts)\<close>

text \<open>
  A thrown value, with the three fields the code reads. \<open>new Error(m)\<close> has the message
  \<open>m\<close> and neither \<open>status\<close> nor \<open>code\<close>.
\<close>

record js_error =
  status :: "int option"
  code :: "int option"
  message :: "string option"

definition Error :: "string \<Rightarrow> js_error" where
  "Error m = \<lparr> status = None, code = None, message = Some m \<rparr>"

text \<open>
  What the remote call does: it throws, or it answers. The client construction
  (\<open>getAIClient\<close>, which throws when the key is missing) and the request itself sit in
  the same \<open>try\<close> block, so both failures are \<open>Threw\<close>.
\<close>

datatype 'r call = Threw js_error | Replied 'r

text \<open>\<open>message.includes(sub)\<close>.\<close>

fun str_includes :: "string \<Rightarrow> string \<Rightarrow> bool" where
  "str_includes [] sub = (sub = [])"
| "str_includes (c # cs) sub = (prefix sub (c # cs) \<or> str_includes cs sub)"

text \<open>
  \<open>handleGeminiError\<close>: \<open>Some e\<close> is the error it throws, \<open>None\<close> is a normal return
  (after which the caller throws the error it caught).
\<close>

definition handleGeminiError :: "js_error \<Rightarrow> js_error option" where
  "handleGeminiError err =
     (let st = (case status err of
                  Some n \<Rightarrow> if n \<noteq> 0 then Some n else code err
                | None \<Rightarrow> code err);
          msg = (case js_or (message err) (Some []) of Some m \<Rightarrow> m | None \<Rightarrow> [])
      in if st = Some 429 \<or> str_includes msg ''quota'' \<or> str_includes msg ''RESOURCE_EXHAUSTED''
         then Some (Error ''QUOTA EXCEEDED: You've reached the free tier limit for the Gemini API. Please wait a minute or upgrade to a paid plan at ai.google.dev.'')
         else if st = Some 403 \<or> str_includes msg ''leaked'' \<or> str_includes msg ''PERMISSION_DENIED''
         then Some (Error ''API KEY ERROR: Your key is either invalid, leaked, or restricted. Please check your Vercel Environment Variables.'')
         else if str_includes msg ''safety''
         then Some (Error ''SAFETY BLOCK: The AI blocked this request because of content safety filters. Try a different image or text.'')
         else None)"

text \<open>The \<open>catch\<close> block of both service functions: classify, else rethrow.\<close>

definition rethrow :: "js_error \<Rightarrow> js_error" where
  "rethrow err = (case handleGeminiError err of Some e \<Rightarrow> e | None \<Rightarrow> err)"

subsection \<open>Detection\<close>

text \<open>
  \<open>`${index}`\<close> for an array position: its decimal digits.
\<close>

definition digit :: "nat \<Rightarrow> char" where
  "digit d = char_of (48 + d)"

fun decimal :: "nat \<Rightarrow> string" where
  "decimal n = (if n < 10 then [digit n] else decimal (n div 10) @ [digit (n mod 10)])"

declare decimal.simps [simp del]

text \<open>
  One element of the parsed answer, as the prompt and the response schema ask for it:
  a text and the four numbers \<open>[ymin, xmin, ymax, xmax]\<close>.
\<close>

record rawItem =
  raw_text :: string
  raw_box :: "real \<times> real \<times> real \<times> real"

definition toDetectedText :: "nat \<Rightarrow> rawItem \<Rightarrow> DetectedText" where
  "toDetectedText index item =
     (case raw_box item of (b0, b1, b2, b3) \<Rightarrow>
        \<lparr> id' = ''text-'' @ decimal index,
          text' = raw_text item,
          isEdited = None,
          boundingBox = \<lparr> ymin = b0, xmin = b1, ymax = b2, xmax = b3 \<rparr>,
          confidence = 1 \<rparr>)"

text \<open>\<open>rawJson.map((item, index) => ...)\<close>, with the position counted from \<open>k\<close>.\<close>

fun mapIndexed :: "nat \<Rightarrow> rawItem list \<Rightarrow> DetectedText list" where
  "mapIndexed k [] = []"
| "mapIndexed k (item # items) = toDetectedText k item # mapIndexed (Suc k) items"

text \<open>
  \<open>analyzeImageText\<close>. The request, the check that the answer is not empty and
  \<open>JSON.parse\<close> are the parameter: \<open>Threw\<close> when one of them throws, \<open>Replied\<close> with
  the parsed array otherwise. \<open>Inl\<close> is the error the function throws.
\<close>

definition analyzeImageText :: "rawItem list call \<Rightarrow> js_error + DetectedText list" where
  "analyzeImageText answer =
     (case answer of
        Threw err \<Rightarrow> Inl (rethrow err)
      | Replied rawJson \<Rightarrow> Inr (mapIndexed 0 rawJson))"

subsection \<open>Rendering\<close>

record inlineData =
  data :: "string option"

record part =
  part_inlineData :: "inlineData option"

text \<open>The loop over the parts, lines 121-125: the first part that carries data.\<close>

fun firstImage :: "part list \<Rightarrow> string option" where
  "firstImage [] = None"
| "firstImage (p # ps) =
     (case part_inlineData p of
        None \<Rightarrow> firstImage ps
      | Some d \<Rightarrow>
          (case data d of
             None \<Rightarrow> firstImage ps
           | Some b \<Rightarrow> if b \<noteq> [] then Some (''data:image/png;base64,'' @ b) else firstImage ps))"

text \<open>
  The nine arguments of \<open>editImageText\<close>, from which it builds the prompt; the remote
  model is a function of them. Its answer is \<open>response.candidates?.[0]?.content?.parts\<close>.
\<close>

record editPrompt =
  p_base64Image :: string
  p_originalText :: string
  p_newText :: string
  p_box :: boundingBox
  p_font :: string
  p_color :: string
  p_strokeColor :: string
  p_strokeWidth :: int
  p_fontSize :: int

type_synonym renderer = "editPrompt \<Rightarrow> part list option call"

definition editImageText ::
  "renderer \<Rightarrow> string \<Rightarrow> string \<Rightarrow> string \<Rightarrow> boundingBox \<Rightarrow> string \<Rightarrow> string \<Rightarrow> string
     \<Rightarrow> int \<Rightarrow> int \<Rightarrow> js_error + string option" where
  "editImageText gemini base64Image originalText newText box font color strokeColor
       strokeWidth fontSize =
     (case gemini \<lparr> p_base64Image = base64Image, p_originalText = originalText,
                     p_newText = newText, p_box = box, p_font = font, p_color = color,
                     p_strokeColor = strokeColor, p_strokeWidth = strokeWidth,
                     p_fontSize = fontSize \<rparr> of
        Threw err \<Rightarrow> Inl (rethrow err)
      | Replied None \<Rightarrow> Inr None
      | Replied (Some parts) \<Rightarrow> Inr (firstImage parts))"

section \<open>Orchestration (src/App.tsx)\<close>

definition editFailed :: "js_error \<Rightarrow> AppState \<Rightarrow> AppState" where
  "editFailed err prev =
     prev\<lparr> processing := (processing prev)
              \<lparr> isEditing := False,
                error := js_or (message err) (Some ''Editing failed.'') \<rparr> \<rparr>"

text \<open>
  Line 75, \<open>currentImage || state.originalImage\<close>. Where it is computed the guard of
  line 67 has made \<open>originalImage\<close> truthy, so one of the two is a string.
\<close>

definition baseToEdit :: "AppState \<Rightarrow> string" where
  "baseToEdit s = (case js_or (currentImage s) (originalImage s) of Some b \<Rightarrow> b | None \<Rightarrow> [])"

text \<open>
  \<open>handleEditText\<close>. The guard and the first updater run at once, on the state \<open>s\<close> of the
  render; the updater that commits or fails runs after the \<open>await\<close>, on the state as it is
  then. Nothing stops other updaters in between (the reply of a detection pass that was
  still pending, the header buttons): \<open>during\<close> is what they did to the state, the
  identity when nothing ran.
\<close>

definition handleEditText ::
  "renderer \<Rightarrow> string \<Rightarrow> string \<Rightarrow> string \<Rightarrow> string \<Rightarrow> string \<Rightarrow> int \<Rightarrow> int
     \<Rightarrow> (AppState \<Rightarrow> AppState) \<Rightarrow> AppState \<Rightarrow> AppState" where
  "handleEditText gemini i newText font color strokeColor strokeWidth fontSize during s =
     (case js_find (\<lambda>t. id' t = i) (detectedTexts s) of
        None \<Rightarrow> s
      | Some target \<Rightarrow>
          if \<not> truthy (originalImage s) then s
          else
            (let prev = during (editStarted s)
             in case editImageText gemini (baseToEdit s) (text' target) newText
                       (boundingBox target) font color strokeColor strokeWidth fontSize of
                  Inl err \<Rightarrow> editFailed err prev
                | Inr result \<Rightarrow>
                    if truthy result
                    then editCommitted i newText (the result) prev
                    else editFailed
                           (Error ''Editing failed. The AI couldn't generate the requested area.'')
                           prev))"

text \<open>
  \<open>handleFileUpload\<close> once the file is read: reset on the new baseline, then the outcome
  of the detection pass.
\<close>

definition uploadStarted :: "string \<Rightarrow> AppState \<Rightarrow> AppState" where
  "uploadStarted base64 prev =
     prev\<lparr> originalImage := Some base64, history := [], historyIndex := -1,
           detectedTexts := [],
           processing := (processing prev)\<lparr> isAnalyzing := True, error := None \<rparr> \<rparr>"

definition analysisDone :: "DetectedText list \<Rightarrow> AppState \<Rightarrow> AppState" where
  "analysisDone results prev =
     prev\<lparr> detectedTexts := results,
           processing := (processing prev)\<lparr> isAnalyzing := False \<rparr> \<rparr>"

definition analysisFailed :: "js_error \<Rightarrow> AppState \<Rightarrow> AppState" where
  "analysisFailed err prev =
     prev\<lparr> processing := (processing prev)
              \<lparr> isAnalyzing := False,
                error := js_or (message err) (Some ''Failed to analyze image.'') \<rparr> \<rparr>"

definition handleFileUpload :: "rawItem list call \<Rightarrow> string \<Rightarrow> AppState \<Rightarrow> AppState" where
  "handleFileUpload answer base64 s =
     (case analyzeImageText answer of
        Inr results \<Rightarrow> analysisDone results (uploadStarted base64 s)
      | Inl err \<Rightarrow> analysisFailed err (uploadStarted base64 s))"

section \<open>The editor overlay (components/EditorOverlay.tsx)\<close>

record point =
  coord_x :: real
  coord_y :: real

text \<open>The component's state, one field for each \<open>useState\<close>.\<close>

record overlay =
  editingId :: "string option"
  tempText :: string
  selectedFont :: string
  selectedColor :: string
  customColor :: string
  useStroke :: bool
  strokeColor :: string
  strokeWidth :: int
  fontSize :: int
  scale :: real
  offset :: point
  isPanning :: bool
  startPan :: point
  progress :: real

definition initialOverlay :: overlay where
  "initialOverlay =
     \<lparr> editingId = None, tempText = [], selectedFont = ''original'',
       selectedColor = ''original'', customColor = ''#000000'', useStroke = False,
       strokeColor = ''#ffffff'', strokeWidth = 2, fontSize = 100, scale = 1,
       offset = \<lparr> coord_x = 0, coord_y = 0 \<rparr>, isPanning = False,
       startPan = \<lparr> coord_x = 0, coord_y = 0 \<rparr>, progress = 0 \<rparr>"

text \<open>The two flags among the props, and the fields of the events that the handlers read.\<close>

record props =
  isProcessing :: bool
  propIsAnalyzing :: bool

record wheelEvent =
  ctrlKey :: bool
  metaKey :: bool
  deltaY :: real

record mouseEvent =
  clientX :: real
  clientY :: real

definition handleBoxClick :: "props \<Rightarrow> DetectedText \<Rightarrow> overlay \<Rightarrow> overlay" where
  "handleBoxClick pr textObj v =
     (if isProcessing pr \<or> propIsAnalyzing pr \<or> isPanning v then v
      else v\<lparr> editingId := Some (id' textObj), tempText := text' textObj,
              selectedFont := ''original'', selectedColor := ''original'',
              useStroke := False, fontSize := 100 \<rparr>)"

text \<open>The arguments \<open>handleSubmit\<close> hands to \<open>onEditText\<close>.\<close>

record editRequest =
  r_id :: string
  r_newText :: string
  r_font :: string
  r_color :: string
  r_strokeColor :: string
  r_strokeWidth :: int
  r_fontSize :: int

text \<open>
  \<open>handleSubmit\<close>: the new component state, and the call to \<open>onEditText\<close> if one
  is made.
\<close>

definition handleSubmit :: "overlay \<Rightarrow> overlay \<times> editRequest option" where
  "handleSubmit v =
     (if truthy (editingId v) \<and> tempText v \<noteq> []
      then
        (let colorToPass = (if selectedColor v = ''original'' then ''original''
                            else customColor v)
         in (v\<lparr> editingId := None \<rparr>,
             Some \<lparr> r_id = the (editingId v), r_newText = tempText v,
                    r_font = selectedFont v, r_color = colorToPass,
                    r_strokeColor = (if useStroke v then strokeColor v else ''none''),
                    r_strokeWidth = (if useStroke v then strokeWidth v else 0),
                    r_fontSize = fontSize v \<rparr>))
      else (v, None))"

text \<open>The close button and Cancel: \<open>setEditingId(null)\<close>.\<close>

definition cancelEdit :: "overlay \<Rightarrow> overlay" where
  "cancelEdit v = v\<lparr> editingId := None \<rparr>"

subsection \<open>Zoom and pan\<close>

definition origin :: point where
  "origin = \<lparr> coord_x = 0, coord_y = 0 \<rparr>"

text \<open>
  \<open>handleWheel\<close> and \<open>zoomOut\<close> read \<open>scale\<close> from the render that created them and set
  the new scale outright: \<open>rendered\<close> is that scale. \<open>zoomIn\<close> passes an updater, which gets
  the scale of the state it is applied to.
\<close>

definition handleWheel :: "props \<Rightarrow> wheelEvent \<Rightarrow> real \<Rightarrow> overlay \<Rightarrow> overlay" where
  "handleWheel pr e rendered v =
     (if isProcessing pr \<or> propIsAnalyzing pr then v
      else if ctrlKey e \<or> metaKey e then
        (let delta = (if deltaY e > 0 then - toDouble (15 / 100) else toDouble (15 / 100));
             nextScale = min (max (js_add rendered delta) 1) 5
         in if nextScale = 1 then v\<lparr> scale := nextScale, offset := origin \<rparr>
            else v\<lparr> scale := nextScale \<rparr>)
      else v)"

definition zoomIn :: "overlay \<Rightarrow> overlay" where
  "zoomIn v = v\<lparr> scale := min (js_add (scale v) (toDouble (3 / 10))) 5 \<rparr>"

definition zoomOut :: "real \<Rightarrow> overlay \<Rightarrow> overlay" where
  "zoomOut rendered v =
     (let nextScale = max (js_sub rendered (toDouble (3 / 10))) 1
      in if nextScale = 1 then v\<lparr> scale := nextScale, offset := origin \<rparr>
         else v\<lparr> scale := nextScale \<rparr>)"

definition resetZoom :: "overlay \<Rightarrow> overlay" where
  "resetZoom v = v\<lparr> scale := 1, offset := origin \<rparr>"

definition handleMouseDown :: "props \<Rightarrow> mouseEvent \<Rightarrow> overlay \<Rightarrow> overlay" where
  "handleMouseDown pr e v =
     (if scale v \<le> 1 \<or> isProcessing pr \<or> propIsAnalyzing pr then v
      else v\<lparr> isPanning := True,
              startPan := \<lparr> coord_x = clientX e - coord_x (offset v),
                             coord_y = clientY e - coord_y (offset v) \<rparr> \<rparr>)"

definition handleMouseMove :: "mouseEvent \<Rightarrow> overlay \<Rightarrow> overlay" where
  "handleMouseMove e v =
     (if \<not> isPanning v \<or> scale v \<le> 1 then v
      else v\<lparr> offset := \<lparr> coord_x = clientX e - coord_x (startPan v),
                           coord_y = clientY e - coord_y (startPan v) \<rparr> \<rparr>)"

definition handleMouseUp :: "overlay \<Rightarrow> overlay" where
  "handleMouseUp v = v\<lparr> isPanning := False \<rparr>"

subsection \<open>Placing the boxes\<close>

text \<open>
  The four percentages of a box's inline style (lines 370-375) and of
  \<open>getPreviewStyle\<close> (lines 311-316), as numbers. Both are written inside the component,
  so its state is in scope; the zoom and the offset go into the \<open>transform\<close> of the
  layer that holds the image and all boxes.
\<close>

record percentages =
  css_top :: real
  css_left :: real
  css_width :: real
  css_height :: real

definition boxStyle :: "overlay \<Rightarrow> DetectedText \<Rightarrow> percentages" where
  "boxStyle v item =
     \<lparr> css_top = ymin (boundingBox item) / 10,
       css_left = xmin (boundingBox item) / 10,
       css_width = (xmax (boundingBox item) - xmin (boundingBox item)) / 10,
       css_height = (ymax (boundingBox item) - ymin (boundingBox item)) / 10 \<rparr>"

record previewStyle = percentages +
  css_fontFamily :: string
  css_color :: string
  css_fontSize :: real

definition getPreviewStyle :: "overlay \<Rightarrow> DetectedText \<Rightarrow> previewStyle" where
  "getPreviewStyle v item =
     (let isFontOriginal = (selectedFont v = ''original'');
          isColorOriginal = (selectedColor v = ''original'')
      in \<lparr> css_top = ymin (boundingBox item) / 10,
           css_left = xmin (boundingBox item) / 10,
           css_width = (xmax (boundingBox item) - xmin (boundingBox item)) / 10,
           css_height = (ymax (boundingBox item) - ymin (boundingBox item)) / 10,
           css_fontFamily = (if isFontOriginal then ''inherit'' else selectedFont v),
           css_color = (if isColorOriginal then ''transparent'' else customColor v),
           css_fontSize = (real_of_int (fontSize v) / 100) * 80 \<rparr>)"

text \<open>\<open>translate(offset.x px, offset.y px) scale(scale)\<close> on the shared layer.\<close>

definition layerTransform :: "overlay \<Rightarrow> point \<times> real" where
  "layerTransform v = (offset v, scale v)"

section \<open>Example data\<close>

text \<open>
  A loaded image with one detected region, the box of the specification's example, and two
  renderers: one that answers without an image part, one whose second part is an image.
\<close>

definition exampleItem :: rawItem where
  "exampleItem = \<lparr> raw_text = ''SALE'', raw_box = (100, 200, 150, 400) \<rparr>"

definition exampleRegion :: DetectedText where
  "exampleRegion =
     \<lparr> id' = ''text-0'', text' = ''SALE'', isEdited = None,
       boundingBox = \<lparr> ymin = 100, xmin = 200, ymax = 150, xmax = 400 \<rparr>,
       confidence = 1 \<rparr>"

definition exampleState :: AppState where
  "exampleState =
     \<lparr> originalImage = Some ''data:image/png;base64,AAAA'', history = [], historyIndex = - 1,
       detectedTexts = [exampleRegion], selectedTextId = None,
       processing = \<lparr> isAnalyzing = False, isEditing = False, error = None \<rparr> \<rparr>"


definition rendersImage :: renderer where
  "rendersImage prompt =
     Replied (Some [\<lparr> part_inlineData = None \<rparr>,
                    \<lparr> part_inlineData = Some \<lparr> data = Some ''BBBB'' \<rparr> \<rparr>])"

definition otherItem :: rawItem where
  "otherItem = \<lparr> raw_text = ''OPEN'', raw_box = (10, 20, 30, 40) \<rparr>"

definition pressAt :: mouseEvent where
  "pressAt = \<lparr> clientX = 10, clientY = 20 \<rparr>"

definition dragTo :: mouseEvent where
  "dragTo = \<lparr> clientX = 15, clientY = 18 \<rparr>"



definition wheelUp :: wheelEvent where
  "wheelUp = \<lparr> ctrlKey = True, metaKey = False, deltaY = - 1 \<rparr>"

definition wheelDown :: wheelEvent where
  "wheelDown = \<lparr> ctrlKey = True, metaKey = False, deltaY = 1 \<rparr>"

definition idle :: props where
  "idle = \<lparr> isProcessing = False, propIsAnalyzing = False \<rparr>"

section \<open>Sequences of user actions\<close>

text \<open>
  What a user can do to the history: commit an edit (the updater of lines 79-90, with the
  region, the new text and the rendered snapshot), submit an edit through
  \<open>handleEditText\<close> with whatever the renderer answers and nothing else running until
  it completes, undo, redo.
\<close>

datatype historyOp =
    Push string string string
  | Edit renderer string string string string string int int
  | Undo
  | Redo

fun applyOp :: "historyOp \<Rightarrow> AppState \<Rightarrow> AppState" where
  "applyOp (Push i newText result) s = editCommitted i newText result s"
| "applyOp (Edit gemini i newText font col sc sw fs) s =
     handleEditText gemini i newText font col sc sw fs id s"
| "applyOp Undo s = handleUndo s"
| "applyOp Redo s = handleRedo s"

fun runOps :: "historyOp list \<Rightarrow> AppState \<Rightarrow> AppState" where
  "runOps [] s = s"
| "runOps (op # ops) s = runOps ops (applyOp op s)"

text \<open>The cursor is on a stored snapshot or on the baseline.\<close>

definition cursorInRange :: "AppState \<Rightarrow> bool" where
  "cursorInRange s = (- 1 \<le> historyIndex s \<and> historyIndex s \<le> int (length (history s)) - 1)"

text \<open>
  What a user can do to the overlay, each action with the props of its render. Every
  action is handled by the render that shows the state the action before it left.
\<close>

datatype overlayEvent =
    Wheel wheelEvent
  | ZoomIn
  | ZoomOut
  | ResetZoom
  | MouseDown mouseEvent
  | MouseMove mouseEvent
  | MouseUp
  | BoxClick DetectedText
  | Submit
  | Cancel

fun overlayStep :: "props \<times> overlayEvent \<Rightarrow> overlay \<Rightarrow> overlay" where
  "overlayStep (pr, Wheel e) v = handleWheel pr e (scale v) v"
| "overlayStep (pr, ZoomIn) v = zoomIn v"
| "overlayStep (pr, ZoomOut) v = zoomOut (scale v) v"
| "overlayStep (pr, ResetZoom) v = resetZoom v"
| "overlayStep (pr, MouseDown e) v = handleMouseDown pr e v"
| "overlayStep (pr, MouseMove e) v = handleMouseMove e v"
| "overlayStep (pr, MouseUp) v = handleMouseUp v"
| "overlayStep (pr, BoxClick textObj) v = handleBoxClick pr textObj v"
| "overlayStep (pr, Submit) v = fst (handleSubmit v)"
| "overlayStep (pr, Cancel) v = cancelEdit v"

fun runOverlay :: "(props \<times> overlayEvent) list \<Rightarrow> overlay \<Rightarrow> overlay" where
  "runOverlay [] v = v"
| "runOverlay (e # es) v = runOverlay es (overlayStep e v)"


text \<open>The three actions of a pan gesture.\<close>

fun isPanEvent :: "props \<times> overlayEvent \<Rightarrow> bool" where
  "isPanEvent (pr, MouseDown e) = True"
| "isPanEvent (pr, MouseMove e) = True"
| "isPanEvent (pr, MouseUp) = True"
| "isPanEvent (pr, _) = False"

text \<open>Pressing Apply: \<open>handleSubmit\<close>, and \<open>handleEditText\<close> if it calls \<open>onEditText\<close>.\<close>

definition pressApply ::
  "renderer \<Rightarrow> (AppState \<Rightarrow> AppState) \<Rightarrow> overlay \<times> AppState \<Rightarrow> overlay \<times> AppState" where
  "pressApply gemini during vs =
     (case handleSubmit (fst vs) of
        (v', None) \<Rightarrow> (v', snd vs)
      | (v', Some r) \<Rightarrow>
          (v', handleEditText gemini (r_id r) (r_newText r) (r_font r) (r_color r)
                 (r_strokeColor r) (r_strokeWidth r) (r_fontSize r) during (snd vs)))"

section \<open>The image history\<close>

lemma slice0_in_range:
  "- 1 \<le> k \<Longrightarrow> k \<le> int (length xs) - 1 \<Longrightarrow> slice0 xs (k + 1) = take (nat (k + 1)) xs"
  by (simp add: slice0_def Let_def min_def)


lemma slice0_bounds: "length (slice0 xs e) \<le> length xs"
  by (simp add: slice0_def Let_def)

lemma editStarted_frame [simp]:
  "history (editStarted s) = history s"
  "historyIndex (editStarted s) = historyIndex s"
  "detectedTexts (editStarted s) = detectedTexts s"
  "originalImage (editStarted s) = originalImage s"
  "selectedTextId (editStarted s) = selectedTextId s"
  by (simp_all add: editStarted_def)

lemma editFailed_frame [simp]:
  "history (editFailed err s) = history s"
  "historyIndex (editFailed err s) = historyIndex s"
  "detectedTexts (editFailed err s) = detectedTexts s"
  "originalImage (editFailed err s) = originalImage s"
  "selectedTextId (editFailed err s) = selectedTextId s"
  by (simp_all add: editFailed_def)

lemma editCommitted_fields [simp]:
  "history (editCommitted i t r s) = slice0 (history s) (historyIndex s + 1) @ [r]"
  "historyIndex (editCommitted i t r s) = int (length (slice0 (history s) (historyIndex s + 1)))"
  "detectedTexts (editCommitted i t r s) = markEdited i t (detectedTexts s)"
  "originalImage (editCommitted i t r s) = originalImage s"
  "selectedTextId (editCommitted i t r s) = selectedTextId s"
  by (simp_all add: editCommitted_def Let_def)

lemma handleRedo_at_tail:
  "historyIndex s = int (length (history s)) - 1 \<Longrightarrow> handleRedo s = s"
  by (simp add: handleRedo_def)

text \<open>
  C1. A push keeps the snapshots at positions \<open>[0, historyIndex + 1)\<close>, appends the new
  one and puts the cursor on it, so that a redo after it changes nothing; on the
  history \<open>[A, B, C]\<close> with the cursor at 2, an undo moves the cursor to 1 and a push of
  \<open>D\<close> then gives \<open>[A, B, D]\<close> with the cursor at 2, where redo does nothing.
\<close>

theorem push_discards_redo_branch:
  assumes "- 1 \<le> historyIndex s" and "historyIndex s \<le> int (length (history s)) - 1"
  shows "history (editCommitted i newText d s) = take (nat (historyIndex s + 1)) (history s) @ [d]
       \<and> historyIndex (editCommitted i newText d s)
           = int (length (history (editCommitted i newText d s))) - 1
       \<and> handleRedo (editCommitted i newText d s) = editCommitted i newText d s
       \<and> (history s = [A, B, C] \<and> historyIndex s = 2 \<longrightarrow>
            historyIndex (handleUndo s) = 1
          \<and> history (editCommitted i newText D (handleUndo s)) = [A, B, D]
          \<and> historyIndex (editCommitted i newText D (handleUndo s)) = 2
          \<and> handleRedo (editCommitted i newText D (handleUndo s))
              = editCommitted i newText D (handleUndo s))"
proof -
  have trunc: "history (editCommitted i newText d s)
                 = take (nat (historyIndex s + 1)) (history s) @ [d]"
    using assms by (simp add: slice0_in_range)
  have cursor: "historyIndex (editCommitted i newText d s)
                  = int (length (history (editCommitted i newText d s))) - 1"
    by simp
  have redo: "handleRedo (editCommitted i newText d s) = editCommitted i newText d s"
    by (rule handleRedo_at_tail) simp
  have example: "historyIndex (handleUndo s) = 1
          \<and> history (editCommitted i newText D (handleUndo s)) = [A, B, D]
          \<and> historyIndex (editCommitted i newText D (handleUndo s)) = 2
          \<and> handleRedo (editCommitted i newText D (handleUndo s))
              = editCommitted i newText D (handleUndo s)"
    if abc: "history s = [A, B, C]" and at2: "historyIndex s = 2"
  proof -
    have u: "historyIndex (handleUndo s) = 1" "history (handleUndo s) = [A, B, C]"
      using abc at2 by (simp_all add: handleUndo_def)
    have sl: "slice0 [A, B, C] 2 = [A, B]"
      by (simp add: slice0_def Let_def)
    have h: "history (editCommitted i newText D (handleUndo s)) = [A, B, D]"
      using u sl by simp
    have c: "historyIndex (editCommitted i newText D (handleUndo s)) = 2"
      using u sl by simp
    have r: "handleRedo (editCommitted i newText D (handleUndo s))
               = editCommitted i newText D (handleUndo s)"
      by (rule handleRedo_at_tail) simp
    from u(1) h c r show ?thesis by simp
  qed
  from trunc cursor redo example show ?thesis by blast
qed

theorem push_discards_redo_branch_witness:
  "- 1 \<le> historyIndex (initialState\<lparr> history := [''A'', ''B'', ''C''], historyIndex := 2 \<rparr>)
   \<and> historyIndex (initialState\<lparr> history := [''A'', ''B'', ''C''], historyIndex := 2 \<rparr>)
        \<le> int (length (history (initialState\<lparr> history := [''A'', ''B'', ''C''], historyIndex := 2 \<rparr>))) - 1
   \<and> history (editCommitted ''text-0'' ''new'' ''D''
         (handleUndo (initialState\<lparr> history := [''A'', ''B'', ''C''], historyIndex := 2 \<rparr>)))
       = [''A'', ''B'', ''D'']
   \<and> historyIndex (editCommitted ''text-0'' ''new'' ''D''
         (handleUndo (initialState\<lparr> history := [''A'', ''B'', ''C''], historyIndex := 2 \<rparr>)))
       = 2
   \<and> handleRedo (editCommitted ''text-0'' ''new'' ''D''
         (handleUndo (initialState\<lparr> history := [''A'', ''B'', ''C''], historyIndex := 2 \<rparr>)))
       = editCommitted ''text-0'' ''new'' ''D''
         (handleUndo (initialState\<lparr> history := [''A'', ''B'', ''C''], historyIndex := 2 \<rparr>))"
proof -
  let ?s = "initialState\<lparr> history := [''A'', ''B'', ''C''], historyIndex := 2 \<rparr>"
  have lo: "- 1 \<le> historyIndex ?s" by simp
  have hi: "historyIndex ?s \<le> int (length (history ?s)) - 1" by simp
  have abc: "history ?s = [''A'', ''B'', ''C''] \<and> historyIndex ?s = 2" by simp
  from push_discards_redo_branch
         [OF lo hi, of "''text-0''" "''new''" "''D''" "''A''" "''B''" "''C''" "''D''"] abc
  have "history (editCommitted ''text-0'' ''new'' ''D'' (handleUndo ?s)) = [''A'', ''B'', ''D'']
      \<and> historyIndex (editCommitted ''text-0'' ''new'' ''D'' (handleUndo ?s)) = 2
      \<and> handleRedo (editCommitted ''text-0'' ''new'' ''D'' (handleUndo ?s))
          = editCommitted ''text-0'' ''new'' ''D'' (handleUndo ?s)"
    by blast
  with lo hi show ?thesis by blast
qed

subsection \<open>The cursor stays in range\<close>

lemma editCommitted_cursorInRange: "cursorInRange (editCommitted i t r s)"
  by (simp add: cursorInRange_def)

lemma handleUndo_cursorInRange: "cursorInRange s \<Longrightarrow> cursorInRange (handleUndo s)"
  by (simp add: cursorInRange_def handleUndo_def)

lemma handleRedo_cursorInRange: "cursorInRange s \<Longrightarrow> cursorInRange (handleRedo s)"
  by (simp add: cursorInRange_def handleRedo_def)

lemma cursorInRange_cong:
  "history s' = history s \<Longrightarrow> historyIndex s' = historyIndex s \<Longrightarrow>
   cursorInRange s \<Longrightarrow> cursorInRange s'"
  by (simp add: cursorInRange_def)

lemma handleEditText_cases:
  "handleEditText gemini i t font col sc sw fs during s = s
   \<or> (\<exists>err. handleEditText gemini i t font col sc sw fs during s
               = editFailed err (during (editStarted s)))
   \<or> (\<exists>r. handleEditText gemini i t font col sc sw fs during s
             = editCommitted i t r (during (editStarted s)))"
  unfolding handleEditText_def Let_def
  by (auto split: option.splits sum.splits)

lemma handleEditText_cursorInRange:
  assumes "cursorInRange s"
  shows "cursorInRange (handleEditText gemini i t font col sc sw fs id s)"
proof -
  consider (same) "handleEditText gemini i t font col sc sw fs id s = s"
    | (failed) err where
        "handleEditText gemini i t font col sc sw fs id s = editFailed err (editStarted s)"
    | (committed) r where
        "handleEditText gemini i t font col sc sw fs id s = editCommitted i t r (editStarted s)"
    using handleEditText_cases [of gemini i t font col sc sw fs id s] by auto
  then show ?thesis
  proof cases
    case same
    with assms show ?thesis by simp
  next
    case failed
    have "cursorInRange (editFailed err (editStarted s))"
      using assms by (rule cursorInRange_cong [rotated 2]) simp_all
    with failed show ?thesis by simp
  next
    case committed
    then show ?thesis by (simp add: editCommitted_cursorInRange)
  qed
qed

lemma handleEditText_originalImage:
  "originalImage (handleEditText gemini i t font col sc sw fs id s) = originalImage s"
  using handleEditText_cases [of gemini i t font col sc sw fs id s] by auto

lemma applyOp_cursorInRange: "cursorInRange s \<Longrightarrow> cursorInRange (applyOp op s)"
  by (cases op)
     (simp_all add: editCommitted_cursorInRange handleEditText_cursorInRange
        handleUndo_cursorInRange handleRedo_cursorInRange)

lemma applyOp_originalImage: "originalImage (applyOp op s) = originalImage s"
  by (cases op) (simp_all add: handleEditText_originalImage handleUndo_def handleRedo_def)

lemma runOps_cursorInRange: "cursorInRange s \<Longrightarrow> cursorInRange (runOps ops s)"
  by (induction ops arbitrary: s) (simp_all add: applyOp_cursorInRange)

lemma runOps_originalImage: "originalImage (runOps ops s) = originalImage s"
  by (induction ops arbitrary: s) (simp_all add: applyOp_originalImage)

lemma currentImage_in_range:
  assumes "cursorInRange s"
  shows "(0 \<le> historyIndex s \<longrightarrow> currentImage s = Some (history s ! nat (historyIndex s)))
       \<and> (historyIndex s = - 1 \<longrightarrow> currentImage s = originalImage s)"
  using assms by (simp add: cursorInRange_def currentImage_def js_index_def)

text \<open>
  C3. Start from a freshly reset history (no snapshot, cursor at -1) and run any sequence
  of pushes, edit submissions, undos and redos. After every prefix of it the cursor is
  between -1 and the last position, the current image is the snapshot under the cursor
  when the cursor is at 0 or more, and it is the baseline image when the cursor is at -1.
\<close>

theorem history_cursor_invariant:
  assumes "history s0 = []" and "historyIndex s0 = - 1"
  shows "- 1 \<le> historyIndex (runOps (take k ops) s0)
       \<and> historyIndex (runOps (take k ops) s0)
           \<le> int (length (history (runOps (take k ops) s0))) - 1
       \<and> (0 \<le> historyIndex (runOps (take k ops) s0) \<longrightarrow>
            currentImage (runOps (take k ops) s0)
              = Some (history (runOps (take k ops) s0)
                        ! nat (historyIndex (runOps (take k ops) s0))))
       \<and> (historyIndex (runOps (take k ops) s0) = - 1 \<longrightarrow>
            currentImage (runOps (take k ops) s0) = originalImage s0)"
proof -
  have start: "cursorInRange s0"
    using assms by (simp add: cursorInRange_def)
  have inv: "cursorInRange (runOps (take k ops) s0)"
    using start by (rule runOps_cursorInRange)
  have base: "originalImage (runOps (take k ops) s0) = originalImage s0"
    by (rule runOps_originalImage)
  from inv have range: "- 1 \<le> historyIndex (runOps (take k ops) s0)"
      "historyIndex (runOps (take k ops) s0)
         \<le> int (length (history (runOps (take k ops) s0))) - 1"
    by (simp_all add: cursorInRange_def)
  from currentImage_in_range [OF inv] base range show ?thesis by simp
qed

theorem history_cursor_invariant_witness:
  "history (uploadStarted ''img'' initialState) = []
   \<and> historyIndex (uploadStarted ''img'' initialState) = - 1
   \<and> historyIndex (runOps (take 4 [Push ''text-0'' ''a'' ''A'', Push ''text-1'' ''b'' ''B'',
                                     Undo, Undo, Redo])
                     (uploadStarted ''img'' initialState)) = - 1
   \<and> currentImage (runOps (take 4 [Push ''text-0'' ''a'' ''A'', Push ''text-1'' ''b'' ''B'',
                                     Undo, Undo, Redo])
                     (uploadStarted ''img'' initialState)) = Some ''img''
   \<and> historyIndex (runOps (take 5 [Push ''text-0'' ''a'' ''A'', Push ''text-1'' ''b'' ''B'',
                                     Undo, Undo, Redo])
                     (uploadStarted ''img'' initialState)) = 0
   \<and> currentImage (runOps (take 5 [Push ''text-0'' ''a'' ''A'', Push ''text-1'' ''b'' ''B'',
                                     Undo, Undo, Redo])
                     (uploadStarted ''img'' initialState)) = Some ''A''"
proof -
  let ?s0 = "uploadStarted ''img'' initialState"
  let ?ops = "[Push ''text-0'' ''a'' ''A'', Push ''text-1'' ''b'' ''B'', Undo, Undo, Redo]"
  have fresh: "history ?s0 = []" "historyIndex ?s0 = - 1" "originalImage ?s0 = Some ''img''"
    by (simp_all add: uploadStarted_def initialState_def)
  have four: "historyIndex (runOps (take 4 ?ops) ?s0) = - 1"
    by (simp add: fresh handleUndo_def slice0_def)
  have five: "historyIndex (runOps (take 5 ?ops) ?s0) = 0"
    "history (runOps (take 5 ?ops) ?s0) = [''A'', ''B'']"
    by (simp_all add: fresh handleUndo_def handleRedo_def slice0_def)
  from history_cursor_invariant [OF fresh(1,2), of 4 ?ops] four fresh(3)
  have c4: "currentImage (runOps (take 4 ?ops) ?s0) = Some ''img''" by simp
  from history_cursor_invariant [OF fresh(1,2), of 5 ?ops] five
  have c5: "currentImage (runOps (take 5 ?ops) ?s0) = Some ''A''" by simp
  from fresh four five(1) c4 c5 show ?thesis by simp
qed

section \<open>Submitting an edit\<close>

lemma decimal_values: "decimal 0 = ''0''" "decimal (Suc 0) = ''1''"
  by code_simp+

lemma id_toDetectedText: "id' (toDetectedText k item) = ''text-'' @ decimal k"
  by (simp add: toDetectedText_def split: prod.splits)

lemma js_find_None: "js_find p xs = None \<longleftrightarrow> (\<forall>x \<in> set xs. \<not> p x)"
  by (induction xs) auto

lemma js_find_Some_holds: "js_find p xs = Some x \<Longrightarrow> p x \<and> x \<in> set xs"
  by (induction xs) (auto split: if_splits)

lemma markEdited_absent: "i \<notin> id' ` set ts \<Longrightarrow> markEdited i newText ts = ts"
  by (induction ts) (auto simp: markEdited_def)

lemma js_find_markEdited:
  "js_find (\<lambda>t. id' t = i) ts = Some target \<Longrightarrow>
   js_find (\<lambda>t. id' t = i) (markEdited i newText ts)
     = Some (target\<lparr> text' := newText, isEdited := Some True \<rparr>)"
  by (induction ts) (auto simp: markEdited_def split: if_splits)












text \<open>
  C8. Marking a region whose id is not in the detection set changes nothing: the region
  update of line 87 returns the detection set as it was, and \<open>handleEditText\<close> returns at
  its guard, before any call and any updater, whatever the renderer would do and
  whatever else would run, so the whole state (history and cursor included) is the same.
\<close>

theorem markEdited_absent_id:
  assumes "i \<notin> id' ` set (detectedTexts s)"
  shows "markEdited i newText (detectedTexts s) = detectedTexts s
       \<and> handleEditText gemini i newText font col sc sw fs during s = s"
proof -
  from assms have "js_find (\<lambda>t. id' t = i) (detectedTexts s) = None"
    by (auto simp: js_find_None)
  then have "handleEditText gemini i newText font col sc sw fs during s = s"
    by (simp add: handleEditText_def)
  with markEdited_absent [OF assms] show ?thesis by simp
qed

theorem markEdited_absent_id_witness:
  "''text-7'' \<notin> id' ` set (detectedTexts exampleState)
   \<and> markEdited ''text-7'' ''SOLD'' (detectedTexts exampleState) = [exampleRegion]
   \<and> handleEditText rendersImage ''text-7'' ''SOLD'' ''original'' ''original'' ''none'' 0 100
        id exampleState = exampleState"
proof -
  have absent: "''text-7'' \<notin> id' ` set (detectedTexts exampleState)"
    by (simp add: exampleState_def exampleRegion_def)
  have "detectedTexts exampleState = [exampleRegion]"
    by (simp add: exampleState_def)
  with markEdited_absent_id [OF absent, of "''SOLD''" rendersImage
         "''original''" "''original''" "''none''" 0 100 id] absent
  show ?thesis by simp
qed

text \<open>
  C10. Undo and redo change the cursor and nothing else: the detected regions, the
  baseline image, the processing flags, the stored snapshots and the selection are the
  same after either. So after an edit is committed and then undone, the edited region
  still shows the new text and is still marked as edited.
\<close>

theorem undo_redo_only_move_cursor:
  "handleUndo s = s\<lparr> historyIndex := historyIndex (handleUndo s) \<rparr>
   \<and> handleRedo s = s\<lparr> historyIndex := historyIndex (handleRedo s) \<rparr>
   \<and> detectedTexts (handleUndo s) = detectedTexts s
   \<and> detectedTexts (handleRedo s) = detectedTexts s
   \<and> originalImage (handleUndo s) = originalImage s
   \<and> originalImage (handleRedo s) = originalImage s
   \<and> processing (handleUndo s) = processing s
   \<and> processing (handleRedo s) = processing s
   \<and> history (handleUndo s) = history s
   \<and> history (handleRedo s) = history s
   \<and> detectedTexts (handleUndo (editCommitted i newText r s))
       = markEdited i newText (detectedTexts s)
   \<and> (js_find (\<lambda>t. id' t = i) (detectedTexts s) = Some target \<longrightarrow>
        js_find (\<lambda>t. id' t = i) (detectedTexts (handleUndo (editCommitted i newText r s)))
          = Some (target\<lparr> text' := newText, isEdited := Some True \<rparr>))"
proof -
  have undo: "handleUndo s = s\<lparr> historyIndex := historyIndex (handleUndo s) \<rparr>"
    by (simp add: handleUndo_def)
  have redo: "handleRedo s = s\<lparr> historyIndex := historyIndex (handleRedo s) \<rparr>"
    by (simp add: handleRedo_def)
  have frame_undo: "detectedTexts (handleUndo s') = detectedTexts s'" for s'
    by (simp add: handleUndo_def)
  have kept: "detectedTexts (handleUndo (editCommitted i newText r s))
                = markEdited i newText (detectedTexts s)"
    by (simp add: frame_undo)
  have shown: "js_find (\<lambda>t. id' t = i) (detectedTexts (handleUndo (editCommitted i newText r s)))
                 = Some (target\<lparr> text' := newText, isEdited := Some True \<rparr>)"
    if "js_find (\<lambda>t. id' t = i) (detectedTexts s) = Some target"
    unfolding kept using that by (rule js_find_markEdited)
  have rest: "detectedTexts (handleUndo s) = detectedTexts s"
    "detectedTexts (handleRedo s) = detectedTexts s"
    "originalImage (handleUndo s) = originalImage s"
    "originalImage (handleRedo s) = originalImage s"
    "processing (handleUndo s) = processing s"
    "processing (handleRedo s) = processing s"
    "history (handleUndo s) = history s"
    "history (handleRedo s) = history s"
    by (simp_all add: handleUndo_def handleRedo_def)
  from undo redo rest kept shown show ?thesis by blast
qed

theorem undo_redo_only_move_cursor_witness:
  "js_find (\<lambda>t. id' t = ''text-0'') (detectedTexts exampleState) = Some exampleRegion
   \<and> historyIndex (editCommitted ''text-0'' ''SOLD'' ''img2'' exampleState) = 0
   \<and> historyIndex (handleUndo (editCommitted ''text-0'' ''SOLD'' ''img2'' exampleState)) = - 1
   \<and> js_find (\<lambda>t. id' t = ''text-0'')
        (detectedTexts (handleUndo (editCommitted ''text-0'' ''SOLD'' ''img2'' exampleState)))
       = Some (exampleRegion\<lparr> text' := ''SOLD'', isEdited := Some True \<rparr>)"
proof -
  have found: "js_find (\<lambda>t. id' t = ''text-0'') (detectedTexts exampleState) = Some exampleRegion"
    by (simp add: exampleState_def exampleRegion_def)
  have cur: "historyIndex (editCommitted ''text-0'' ''SOLD'' ''img2'' exampleState) = 0"
    by (simp add: exampleState_def slice0_def)
  then have undone: "historyIndex (handleUndo (editCommitted ''text-0'' ''SOLD'' ''img2'' exampleState)) = - 1"
    by (simp add: handleUndo_def)
  from undo_redo_only_move_cursor
         [of exampleState "''text-0''" "''SOLD''" "''img2''" exampleRegion] found
  have "js_find (\<lambda>t. id' t = ''text-0'')
          (detectedTexts (handleUndo (editCommitted ''text-0'' ''SOLD'' ''img2'' exampleState)))
         = Some (exampleRegion\<lparr> text' := ''SOLD'', isEdited := Some True \<rparr>)"
    by blast
  with found cur undone show ?thesis by blast
qed

section \<open>The edit form\<close>

text \<open>
  C9. Apply calls \<open>onEditText\<close> exactly when a region is selected and the draft text is not
  empty. With no region selected or with an empty draft, \<open>handleSubmit\<close> leaves the
  component state as it is and makes no call, so the application state is as it was too.
  When the call is made, it carries the selected region's id and the draft text.
\<close>

theorem submit_needs_region_and_text:
  "(snd (handleSubmit v) \<noteq> None \<longleftrightarrow> truthy (editingId v) \<and> tempText v \<noteq> [])
   \<and> (editingId v = None \<or> tempText v = [] \<longrightarrow>
        handleSubmit v = (v, None) \<and> pressApply gemini during (v, s) = (v, s))
   \<and> (snd (handleSubmit v) = Some r \<longrightarrow>
        editingId v = Some (r_id r) \<and> r_newText r = tempText v \<and> tempText v \<noteq> []
        \<and> fst (handleSubmit v) = v\<lparr> editingId := None \<rparr>)"
proof -
  have called: "snd (handleSubmit v) \<noteq> None \<longleftrightarrow> truthy (editingId v) \<and> tempText v \<noteq> []"
    by (simp add: handleSubmit_def Let_def)
  have blocked: "handleSubmit v = (v, None) \<and> pressApply gemini during (v, s) = (v, s)"
    if "editingId v = None \<or> tempText v = []"
    using that by (auto simp: handleSubmit_def pressApply_def)
  have carried: "editingId v = Some (r_id r) \<and> r_newText r = tempText v \<and> tempText v \<noteq> []
        \<and> fst (handleSubmit v) = v\<lparr> editingId := None \<rparr>"
    if "snd (handleSubmit v) = Some r"
    using that by (cases "editingId v") (auto simp: handleSubmit_def Let_def split: if_splits)
  from called blocked carried show ?thesis by blast
qed

theorem submit_needs_region_and_text_witness:
  "tempText ((handleBoxClick idle exampleRegion initialOverlay)\<lparr> tempText := [] \<rparr>) = []
   \<and> pressApply rendersImage id
        ((handleBoxClick idle exampleRegion initialOverlay)\<lparr> tempText := [] \<rparr>, exampleState)
       = ((handleBoxClick idle exampleRegion initialOverlay)\<lparr> tempText := [] \<rparr>, exampleState)
   \<and> snd (handleSubmit (handleBoxClick idle exampleRegion initialOverlay)) \<noteq> None"
proof -
  let ?v = "(handleBoxClick idle exampleRegion initialOverlay)\<lparr> tempText := [] \<rparr>"
  have emptied: "tempText ?v = []" by simp
  then have "editingId ?v = None \<or> tempText ?v = []" by simp
  with submit_needs_region_and_text [of ?v rendersImage id exampleState]
  have stay: "pressApply rendersImage id (?v, exampleState) = (?v, exampleState)" by blast
  have "truthy (editingId (handleBoxClick idle exampleRegion initialOverlay))
        \<and> tempText (handleBoxClick idle exampleRegion initialOverlay) \<noteq> []"
    by (simp add: handleBoxClick_def idle_def initialOverlay_def exampleRegion_def)
  with submit_needs_region_and_text [of "handleBoxClick idle exampleRegion initialOverlay"]
  have "snd (handleSubmit (handleBoxClick idle exampleRegion initialOverlay)) \<noteq> None"
    by blast
  with emptied stay show ?thesis by blast
qed

section \<open>Rounding\<close>

lemma pow2_pos: "0 < pow2 e"
  by (simp add: pow2_def)

lemma pow2_powi: "pow2 e = 2 powi e"
  by (simp add: pow2_def power_int_def inverse_eq_divide power_one_over)

lemma pow2_mono: "a \<le> b \<Longrightarrow> pow2 a \<le> pow2 b"
  unfolding pow2_powi by (simp add: power_int_increasing)

lemma roundEven_near: "\<bar>of_int (roundEven y) - y\<bar> \<le> 1 / 2"
  unfolding roundEven_def Let_def by (auto simp: abs_if) linarith+

lemma binade_le_2:
  assumes "\<bar>x\<bar> < 8"
  shows "binade x \<le> 2"
proof (cases "1 \<le> \<bar>x\<bar>")
  case True
  have "\<lfloor>\<bar>x\<bar>\<rfloor> < 2 ^ nat 3" using assms by (simp add: floor_less_iff)
  then have "bitlen \<lfloor>\<bar>x\<bar>\<rfloor> \<le> 3" by (simp add: bitlen_le_iff_power)
  with True show ?thesis by (simp add: binade_def)
next
  case False
  with bitlen_nonneg [of "\<lceil>1 / \<bar>x\<bar>\<rceil> - 1"] show ?thesis by (simp add: binade_def)
qed

lemma ulp_small:
  assumes "\<bar>x\<bar> < 8"
  shows "ulp x \<le> 1 / 2 ^ 50"
proof -
  have "max (binade x) (- 1022) - 52 \<le> - 50"
    using binade_le_2 [OF assms] by simp
  then have "ulp x \<le> pow2 (- 50)" unfolding ulp_def by (rule pow2_mono)
  then show ?thesis by (simp add: pow2_def)
qed

lemma toDouble_near_ulp: "\<bar>toDouble x - x\<bar> \<le> ulp x / 2"
proof (cases "x = 0")
  case True
  then show ?thesis using pow2_pos [of "max (binade x) (- 1022) - 52"]
    by (simp add: toDouble_def ulp_def)
next
  case False
  have u: "0 < ulp x" by (simp add: ulp_def pow2_pos)
  have "\<bar>of_int (roundEven (x / ulp x)) - x / ulp x\<bar> \<le> 1 / 2"
    by (rule roundEven_near)
  then have "\<bar>of_int (roundEven (x / ulp x)) - x / ulp x\<bar> * ulp x \<le> 1 / 2 * ulp x"
    using u by (simp add: mult_right_mono)
  moreover have "\<bar>of_int (roundEven (x / ulp x)) - x / ulp x\<bar> * ulp x
                   = \<bar>of_int (roundEven (x / ulp x)) * ulp x - x\<bar>"
    using u by (simp add: add_divide_eq_if_simps(4))
  ultimately show ?thesis using False by (simp add: toDouble_def)
qed

text \<open>Below 8 in magnitude a rounded value is within \<open>2^-51\<close> of the exact one.\<close>

lemma toDouble_near:
  assumes "\<bar>x\<bar> < 8"
  shows "\<bar>toDouble x - x\<bar> \<le> 1 / 2 ^ 51"
proof -
  have "\<bar>toDouble x - x\<bar> \<le> ulp x / 2" by (rule toDouble_near_ulp)
  also have "\<dots> \<le> (1 / 2 ^ 50) / 2" using ulp_small [OF assms] by simp
  finally show ?thesis by simp
qed

lemma literal_03: "\<bar>toDouble (3 / 10) - 3 / 10\<bar> \<le> 1 / 2 ^ 51"
  by (rule toDouble_near) simp


text \<open>
  What the sums of the zoom handlers come to, for a scale between 1 and 5: within
  \<open>2^-50\<close> of the decimal sum.
\<close>

lemma rounded_sum:
  fixes a c d r e :: real
  assumes "\<bar>d - c\<bar> \<le> e" and "\<bar>r - (a + d)\<bar> \<le> e"
  shows "\<bar>r - (a + c)\<bar> \<le> 2 * e"
  using assms by linarith

lemma literal_coarse:
  fixes d c :: real
  assumes "\<bar>d - c\<bar> \<le> 1 / 2 ^ 51"
  shows "\<bar>d - c\<bar> \<le> 1"
proof -
  have "(1::real) / 2 ^ 51 \<le> 1" by simp
  with assms show ?thesis by (rule order_trans)
qed

lemma plus_03:
  assumes "1 \<le> a" and "a \<le> 5"
  shows "\<bar>js_add a (toDouble (3 / 10)) - (a + 3 / 10)\<bar> \<le> 1 / 2 ^ 50"
proof -
  have lit: "\<bar>toDouble (3 / 10) - 3 / 10\<bar> \<le> 1 / 2 ^ 51" by (rule literal_03)
  have "\<bar>a + toDouble (3 / 10)\<bar> < 8" using assms literal_coarse [OF lit] by linarith
  then have "\<bar>toDouble (a + toDouble (3 / 10)) - (a + toDouble (3 / 10))\<bar> \<le> 1 / 2 ^ 51"
    by (rule toDouble_near)
  from rounded_sum [OF lit this] show ?thesis unfolding js_add_def by simp
qed




text \<open>
  The model gives the doubles that JavaScript gives: 0.3 is \<open>5404319552844595 / 2^54\<close>,
  \<open>1 + 0.3\<close> is the double 1.3, and \<open>1.3 - 0.15 - 0.15\<close> is \<open>1 + 2^-52\<close>
  (1.0000000000000002), not 1.
\<close>

lemma double_values:
  "toDouble (3 / 10) = 5404319552844595 / 2 ^ 54"
  "js_add 1 (toDouble (3 / 10)) = 5854679515581645 / 2 ^ 52"
  "js_add (js_add (js_add 1 (toDouble (3 / 10))) (- toDouble (15 / 100))) (- toDouble (15 / 100))
     = 1 + 1 / 2 ^ 52"
  by code_simp+

section \<open>Zoom\<close>




lemma zoomIn_scale: "scale (zoomIn v) = min (js_add (scale v) (toDouble (3 / 10))) 5"
  by (simp add: zoomIn_def)



lemma coarse:
  fixes x :: real
  assumes "\<bar>x\<bar> \<le> 1 / 2 ^ 50"
  shows "\<bar>x\<bar> \<le> 1 / 1000"
proof -
  have "(1::real) / 2 ^ 50 \<le> 1 / 1000" by simp
  with assms show ?thesis by (rule order_trans)
qed



lemma zoomIn_scale_range:
  assumes "1 \<le> scale v" and "scale v \<le> 5"
  shows "1 < scale (zoomIn v) \<and> scale (zoomIn v) \<le> 5"
proof -
  from coarse [OF plus_03 [OF assms]]
  have "1 < js_add (scale v) (toDouble (3 / 10))" using assms by linarith
  then show ?thesis unfolding zoomIn_scale by simp
qed
















text \<open>
  The drift of the rounded sums shows in the model as it does in the browser: after the
  zoom-in button, a drag and two wheel ticks down the scale is \<open>1 + 2^-52\<close>, not 1, and
  the offset of the drag is kept.
\<close>

lemma drift_example:
  "scale (runOverlay [(idle, ZoomIn), (idle, MouseDown pressAt), (idle, MouseMove dragTo),
                      (idle, MouseUp), (idle, Wheel wheelDown), (idle, Wheel wheelDown)]
            initialOverlay) = 1 + 1 / 2 ^ 52"
  "offset (runOverlay [(idle, ZoomIn), (idle, MouseDown pressAt), (idle, MouseMove dragTo),
                       (idle, MouseUp), (idle, Wheel wheelDown), (idle, Wheel wheelDown)]
             initialOverlay) = \<lparr> coord_x = 5, coord_y = - 2 \<rparr>"
  by code_simp+



section \<open>Pan\<close>

lemma pan_step_at_rest:
  assumes "isPanEvent e" and "scale v \<le> 1"
  shows "offset (overlayStep e v) = offset v \<and> scale (overlayStep e v) = scale v"
proof (cases e)
  case (Pair pr ev)
  with assms show ?thesis
    by (cases ev) (simp_all add: handleMouseDown_def handleMouseMove_def handleMouseUp_def)
qed

lemma pan_run_at_rest:
  assumes "\<forall>e \<in> set es. isPanEvent e" and "scale v \<le> 1"
  shows "offset (runOverlay es v) = offset v \<and> scale (runOverlay es v) = scale v"
  using assms
proof (induction es arbitrary: v)
  case Nil
  then show ?case by simp
next
  case (Cons e es)
  have one: "offset (overlayStep e v) = offset v \<and> scale (overlayStep e v) = scale v"
    using Cons.prems by (intro pan_step_at_rest) simp_all
  with Cons.prems have "scale (overlayStep e v) \<le> 1" by simp
  with Cons.IH [of "overlayStep e v"] Cons.prems(1) one show ?case by simp
qed

lemma moves_keep_gesture:
  "startPan (runOverlay (map (\<lambda>m. (pr, MouseMove m)) ms) v) = startPan v
   \<and> isPanning (runOverlay (map (\<lambda>m. (pr, MouseMove m)) ms) v) = isPanning v
   \<and> scale (runOverlay (map (\<lambda>m. (pr, MouseMove m)) ms) v) = scale v"
  by (induction ms arbitrary: v) (simp_all add: handleMouseMove_def)

text \<open>
  C5. At scale 1 no sequence of pan actions (mouse down, move, up) changes the offset.
  At a scale above 1, with no processing or analysis under way, a mouse down at
  \<open>e0\<close> followed by any moves and then a move at \<open>e1\<close> leaves the offset at
  \<open>e1 - e0\<close> plus the offset the pan started from; a move after the mouse is released
  changes nothing.
\<close>

theorem pan_only_when_zoomed:
  "(scale v = 1 \<and> (\<forall>x \<in> set es. isPanEvent x) \<longrightarrow> offset (runOverlay es v) = offset v)
   \<and> (1 < scale v \<and> \<not> isProcessing pr \<and> \<not> propIsAnalyzing pr \<longrightarrow>
        offset (handleMouseMove e1
                  (runOverlay (map (\<lambda>m. (pr', MouseMove m)) ms) (handleMouseDown pr e0 v)))
          = \<lparr> coord_x = clientX e1 - clientX e0 + coord_x (offset v),
              coord_y = clientY e1 - clientY e0 + coord_y (offset v) \<rparr>)
   \<and> offset (handleMouseMove e1 (handleMouseUp v)) = offset v"
proof -
  have rest: "offset (runOverlay es v) = offset v"
    if "scale v = 1 \<and> (\<forall>x \<in> set es. isPanEvent x)"
    using that pan_run_at_rest [of es v] by simp
  have drag: "offset (handleMouseMove e1
                  (runOverlay (map (\<lambda>m. (pr', MouseMove m)) ms) (handleMouseDown pr e0 v)))
          = \<lparr> coord_x = clientX e1 - clientX e0 + coord_x (offset v),
              coord_y = clientY e1 - clientY e0 + coord_y (offset v) \<rparr>"
    if h: "1 < scale v \<and> \<not> isProcessing pr \<and> \<not> propIsAnalyzing pr"
  proof -
    let ?d = "handleMouseDown pr e0 v"
    let ?w = "runOverlay (map (\<lambda>m. (pr', MouseMove m)) ms) ?d"
    from h have d: "isPanning ?d" "scale ?d = scale v"
      "startPan ?d = \<lparr> coord_x = clientX e0 - coord_x (offset v),
                       coord_y = clientY e0 - coord_y (offset v) \<rparr>"
      by (simp_all add: handleMouseDown_def)
    from moves_keep_gesture [of pr' ms ?d] d
    have w: "isPanning ?w" "scale ?w = scale v"
      "startPan ?w = \<lparr> coord_x = clientX e0 - coord_x (offset v),
                       coord_y = clientY e0 - coord_y (offset v) \<rparr>"
      by simp_all
    from h w show ?thesis by (simp add: handleMouseMove_def)
  qed
  have released: "offset (handleMouseMove e1 (handleMouseUp v)) = offset v"
    by (simp add: handleMouseMove_def handleMouseUp_def)
  from rest drag released show ?thesis by blast
qed

theorem pan_only_when_zoomed_witness:
  "scale initialOverlay = 1
   \<and> offset (runOverlay [(idle, MouseDown pressAt), (idle, MouseMove dragTo), (idle, MouseUp)]
               initialOverlay) = origin
   \<and> 1 < scale (zoomIn initialOverlay)
   \<and> offset (handleMouseMove dragTo
               (runOverlay (map (\<lambda>m. (idle, MouseMove m)) [pressAt])
                  (handleMouseDown idle pressAt (zoomIn initialOverlay))))
       = \<lparr> coord_x = 5, coord_y = - 2 \<rparr>"
proof -
  let ?es = "[(idle, MouseDown pressAt), (idle, MouseMove dragTo), (idle, MouseUp)]"
  have at_one: "scale initialOverlay = 1" and home: "offset initialOverlay = origin"
    by (simp_all add: initialOverlay_def origin_def)
  have pans: "\<forall>x \<in> set ?es. isPanEvent x" by simp
  from at_one pans
    pan_only_when_zoomed [of initialOverlay ?es]
  have still: "offset (runOverlay ?es initialOverlay) = offset initialOverlay" by blast
  have zoomed: "1 < scale (zoomIn initialOverlay)"
    using zoomIn_scale_range [of initialOverlay] by (simp add: initialOverlay_def)
  have from_home: "offset (zoomIn initialOverlay) = \<lparr> coord_x = 0, coord_y = 0 \<rparr>"
    by (simp add: zoomIn_def initialOverlay_def)
  have free: "\<not> isProcessing idle \<and> \<not> propIsAnalyzing idle"
    by (simp add: idle_def)
  from zoomed free
    pan_only_when_zoomed [of "zoomIn initialOverlay" "[]" idle dragTo idle "[pressAt]" pressAt]
  have "offset (handleMouseMove dragTo
               (runOverlay (map (\<lambda>m. (idle, MouseMove m)) [pressAt])
                  (handleMouseDown idle pressAt (zoomIn initialOverlay))))
       = \<lparr> coord_x = clientX dragTo - clientX pressAt + coord_x (offset (zoomIn initialOverlay)),
           coord_y = clientY dragTo - clientY pressAt + coord_y (offset (zoomIn initialOverlay)) \<rparr>"
    by blast
  then have moved: "offset (handleMouseMove dragTo
               (runOverlay (map (\<lambda>m. (idle, MouseMove m)) [pressAt])
                  (handleMouseDown idle pressAt (zoomIn initialOverlay))))
       = \<lparr> coord_x = 5, coord_y = - 2 \<rparr>"
    by (simp add: from_home pressAt_def dragTo_def)
  from at_one still home zoomed moved show ?thesis by simp
qed

section \<open>Placing the boxes\<close>

text \<open>
  C6. The four percentages of a box are its normalized coordinates divided by 10: top is
  \<open>ymin / 10\<close>, left is \<open>xmin / 10\<close>, width is \<open>(xmax - xmin) / 10\<close> and height is
  \<open>(ymax - ymin) / 10\<close>, for the box itself and for its preview, whatever the component
  state is, so in particular whatever the zoom scale and the offset are. The box
  (ymin 100, xmin 200, ymax 150, xmax 400) gets top 10, left 20, width 20 and height 5.
\<close>

theorem box_percentages:
  "boxStyle v item
     = \<lparr> css_top = ymin (boundingBox item) / 10,
         css_left = xmin (boundingBox item) / 10,
         css_width = (xmax (boundingBox item) - xmin (boundingBox item)) / 10,
         css_height = (ymax (boundingBox item) - ymin (boundingBox item)) / 10 \<rparr>
   \<and> percentages.truncate (getPreviewStyle v item) = boxStyle v item
   \<and> boxStyle (v\<lparr> scale := k, offset := p \<rparr>) item = boxStyle v item
   \<and> boxStyle v' item = boxStyle v item
   \<and> percentages.truncate (getPreviewStyle (v\<lparr> scale := k, offset := p \<rparr>) item)
       = percentages.truncate (getPreviewStyle v item)
   \<and> boxStyle v (item\<lparr> boundingBox := \<lparr> ymin = 100, xmin = 200, ymax = 150, xmax = 400 \<rparr> \<rparr>)
       = \<lparr> css_top = 10, css_left = 20, css_width = 20, css_height = 5 \<rparr>"
  by (simp add: boxStyle_def getPreviewStyle_def Let_def percentages.truncate_def)

theorem box_percentages_witness:
  "boxStyle (runOverlay (replicate 14 (idle, ZoomIn)) initialOverlay) exampleRegion
     = \<lparr> css_top = 10, css_left = 20, css_width = 20, css_height = 5 \<rparr>
   \<and> boxStyle initialOverlay exampleRegion
     = \<lparr> css_top = 10, css_left = 20, css_width = 20, css_height = 5 \<rparr>"
proof -
  have box: "exampleRegion\<lparr> boundingBox := \<lparr> ymin = 100, xmin = 200, ymax = 150, xmax = 400 \<rparr> \<rparr>
              = exampleRegion"
    by (simp add: exampleRegion_def)
  from box_percentages [of "runOverlay (replicate 14 (idle, ZoomIn)) initialOverlay" exampleRegion]
  have a: "boxStyle (runOverlay (replicate 14 (idle, ZoomIn)) initialOverlay)
             (exampleRegion\<lparr> boundingBox := \<lparr> ymin = 100, xmin = 200, ymax = 150, xmax = 400 \<rparr> \<rparr>)
           = \<lparr> css_top = 10, css_left = 20, css_width = 20, css_height = 5 \<rparr>"
    by blast
  from box_percentages [of initialOverlay exampleRegion]
  have b: "boxStyle initialOverlay
             (exampleRegion\<lparr> boundingBox := \<lparr> ymin = 100, xmin = 200, ymax = 150, xmax = 400 \<rparr> \<rparr>)
           = \<lparr> css_top = 10, css_left = 20, css_width = 20, css_height = 5 \<rparr>"
    by blast
  from a b show ?thesis unfolding box by simp
qed

section \<open>Region ids\<close>

lemma digit_inj: "a < 10 \<Longrightarrow> b < 10 \<Longrightarrow> digit a = digit b \<Longrightarrow> a = b"
proof -
  assume a: "a < 10" and b: "b < 10" and eq: "digit a = digit b"
  from eq have "(of_char (digit a) :: nat) = of_char (digit b)" by simp
  then have "(48 + a) mod 256 = (48 + b) mod 256" by (simp add: digit_def)
  with a b show "a = b" by simp
qed

lemma decimal_nonempty: "decimal n \<noteq> []"
  by (subst decimal.simps) simp

lemma decimal_inj: "decimal n = decimal m \<Longrightarrow> n = m"
proof (induction n arbitrary: m rule: decimal.induct)
  case (1 n)
  show ?case
  proof (cases "n < 10")
    case small_n: True
    show ?thesis
    proof (cases "m < 10")
      case True
      from "1.prems" small_n True have "digit n = digit m"
        by (simp add: decimal.simps [of n] decimal.simps [of m])
      with small_n True show ?thesis by (rule digit_inj)
    next
      case False
      from "1.prems" small_n False have "decimal (m div 10) = []"
        by (simp add: decimal.simps [of n] decimal.simps [of m])
      with decimal_nonempty show ?thesis by blast
    qed
  next
    case big_n: False
    show ?thesis
    proof (cases "m < 10")
      case True
      from "1.prems" big_n True have "decimal (n div 10) = []"
        by (simp add: decimal.simps [of n] decimal.simps [of m])
      with decimal_nonempty show ?thesis by blast
    next
      case False
      from "1.prems" big_n False
      have front: "decimal (n div 10) = decimal (m div 10)"
        and last: "digit (n mod 10) = digit (m mod 10)"
        by (simp_all add: decimal.simps [of n] decimal.simps [of m])
      from "1.IH" [OF big_n front] have q: "n div 10 = m div 10" .
      from last have r: "n mod 10 = m mod 10" by (intro digit_inj) simp_all
      have "n = 10 * (n div 10) + n mod 10" by simp
      also have "\<dots> = 10 * (m div 10) + m mod 10" using q r by simp
      finally show ?thesis by simp
    qed
  qed
qed

lemma upt_shift: "[k ..< Suc (k + n)] = k # [Suc k ..< Suc (k + n)]"
  by (rule upt_conv_Cons) simp

lemma ids_mapIndexed:
  "map id' (mapIndexed k items) = map (\<lambda>j. ''text-'' @ decimal j) [k ..< k + length items]"
proof (induction items arbitrary: k)
  case Nil
  show ?case by simp
next
  case (Cons item items)
  have split: "[k ..< k + length (item # items)] = k # [Suc k ..< Suc k + length items]"
    using upt_shift [of k "length items"] by (simp del: upt_Suc)
  show ?case
    unfolding split using Cons.IH [of "Suc k"] by (simp add: id_toDetectedText del: upt_Suc)
qed

lemma ids_distinct: "distinct (map id' (mapIndexed k items))"
proof -
  have "inj_on (\<lambda>j. ''text-'' @ decimal j) (set [k ..< k + length items])"
    by (rule inj_onI) (simp add: decimal_inj)
  then show ?thesis
    unfolding ids_mapIndexed by (simp add: distinct_map)
qed

lemma length_mapIndexed: "length (mapIndexed k items) = length items"
  by (induction items arbitrary: k) simp_all

lemma handleFileUpload_replaces:
  "detectedTexts (handleFileUpload (Replied items) base64 s) = mapIndexed 0 items"
  by (simp add: handleFileUpload_def analyzeImageText_def analysisDone_def)

text \<open>
  C7, as the code has it. A detection pass gives the region at position \<open>k\<close> the id
  \<open>text-k\<close>, so the ids of one pass are pairwise different. They depend on nothing but
  the positions: the next pass numbers its regions from 0 again, and two passes give the
  same ids to the positions they have in common.
\<close>

theorem ids_by_position:
  "detectedTexts (handleFileUpload (Replied items) base64 s) = mapIndexed 0 items
   \<and> map id' (mapIndexed 0 items) = map (\<lambda>k. ''text-'' @ decimal k) [0 ..< length items]
   \<and> distinct (map id' (mapIndexed 0 items))
   \<and> take (length items) (map id' (mapIndexed 0 (items @ items2))) = map id' (mapIndexed 0 items)
   \<and> take (min (length items) (length items')) (map id' (mapIndexed 0 items))
       = take (min (length items) (length items')) (map id' (mapIndexed 0 items'))"
proof -
  have ids: "map id' (mapIndexed 0 xs) = map (\<lambda>k. ''text-'' @ decimal k) [0 ..< length xs]"
    for xs
    using ids_mapIndexed [of 0 xs] by simp
  have prefix_ids: "take (length items) (map id' (mapIndexed 0 (items @ items2)))
                      = map id' (mapIndexed 0 items)"
    unfolding ids by (simp add: take_map)
  have common: "take (min (length items) (length items')) (map id' (mapIndexed 0 items))
       = take (min (length items) (length items')) (map id' (mapIndexed 0 items'))"
    unfolding ids by (simp add: take_map min_def)
  from handleFileUpload_replaces ids [of items] ids_distinct [of 0 items] prefix_ids common
  show ?thesis by blast
qed

theorem ids_by_position_witness:
  "map id' (detectedTexts (handleFileUpload (Replied [exampleItem, otherItem]) ''img'' initialState))
     = [''text-0'', ''text-1'']
   \<and> distinct (map id' (mapIndexed 0 [exampleItem, otherItem]))"
proof -
  have "map (\<lambda>k. ''text-'' @ decimal k) [0 ..< length [exampleItem, otherItem]]
          = [''text-0'', ''text-1'']"
    by (simp add: decimal_values)
  with ids_by_position [of "[exampleItem, otherItem]" "''img''" initialState]
  show ?thesis by simp
qed

text \<open>
  C7 as stated fails: an id is used again by the next pass. An upload, a reset and a
  second upload, each upload detecting one region, give that region the id \<open>text-0\<close>
  both times, although the texts differ, and marking the id of the first pass then
  changes the region of the second.
\<close>

theorem ids_reused_counterexample:
  "map id' (detectedTexts (handleFileUpload (Replied [exampleItem]) ''img1'' initialState))
     = [''text-0'']
   \<and> map id' (detectedTexts (handleFileUpload (Replied [otherItem]) ''img2''
                 (handleReset (handleFileUpload (Replied [exampleItem]) ''img1'' initialState))))
     = [''text-0'']
   \<and> map text' (detectedTexts (handleFileUpload (Replied [exampleItem]) ''img1'' initialState))
     = [''SALE'']
   \<and> map text' (detectedTexts (handleFileUpload (Replied [otherItem]) ''img2''
                 (handleReset (handleFileUpload (Replied [exampleItem]) ''img1'' initialState))))
     = [''OPEN'']
   \<and> set (map id' (detectedTexts (handleFileUpload (Replied [exampleItem]) ''img1'' initialState)))
       \<inter> set (map id' (detectedTexts (handleFileUpload (Replied [otherItem]) ''img2''
                 (handleReset (handleFileUpload (Replied [exampleItem]) ''img1'' initialState)))))
     \<noteq> {}
   \<and> map text' (markEdited ''text-0'' ''SOLD''
        (detectedTexts (handleFileUpload (Replied [otherItem]) ''img2''
                 (handleReset (handleFileUpload (Replied [exampleItem]) ''img1'' initialState)))))
     = [''SOLD'']"
  by (simp add: handleFileUpload_replaces toDetectedText_def exampleItem_def otherItem_def
        decimal_values markEdited_def)

end
